theory Spec2Isabelle
  imports Main "HOL-Library.Sublist"
begin

section \<open>Text as the Python runtime sees it\<close>

text \<open>
  Both scripts read a whole page with \<^verbatim>\<open>f.read()\<close>, transform the text in memory and
  write it back. A page is a \<^typ>\<open>string\<close>; the line feed is the only character the
  scripts treat specially.
\<close>

abbreviation nl :: char where
  "nl \<equiv> CHR 0x0A"

text \<open>
  A triple-quoted literal of the source is given line by line; every line of such a
  literal ends with a line feed.
\<close>

definition unlines :: "string list \<Rightarrow> string" where
  "unlines ls = concat (map (\<lambda>l. l @ [nl]) ls)"

text \<open>\<^verbatim>\<open>s.startswith(p)\<close>\<close>

definition startswith :: "string \<Rightarrow> string \<Rightarrow> bool" where
  "startswith s p = prefix p s"

text \<open>
  \<^verbatim>\<open>s.replace(old, new)\<close>: every occurrence of \<open>old\<close>, found from the left and not
  overlapping, becomes \<open>new\<close>; an empty \<open>old\<close> matches before every character and at
  the end.
\<close>

function py_replace :: "string \<Rightarrow> string \<Rightarrow> string \<Rightarrow> string" where
  "py_replace old new s =
     (if old = [] then new @ concat (map (\<lambda>c. c # new) s)
      else if prefix old s then new @ py_replace old new (drop (length old) s)
      else (case s of [] \<Rightarrow> [] | c # cs \<Rightarrow> c # py_replace old new cs))"
  by pat_completeness auto
termination
  by (relation "measure (\<lambda>(old, new, s). length s)") (auto simp: prefix_def)

text \<open>\<^verbatim>\<open>s.split('\n')\<close> and \<^verbatim>\<open>'\n'.join(lines)\<close>\<close>

function split_nl :: "string \<Rightarrow> string list" where
  "split_nl s =
     (case dropWhile (\<lambda>c. c \<noteq> nl) s of
        [] \<Rightarrow> [s]
      | _ # rest \<Rightarrow> takeWhile (\<lambda>c. c \<noteq> nl) s # split_nl rest)"
  by pat_completeness auto
termination
proof (relation "measure length")
  fix s :: string and x rest
  assume "dropWhile (\<lambda>c. c \<noteq> nl) s = x # rest"
  moreover have "length (dropWhile (\<lambda>c. c \<noteq> nl) s) \<le> length s"
    by (rule length_dropWhile_le)
  ultimately show "(rest, s) \<in> measure length"
    by simp
qed simp

fun join_nl :: "string list \<Rightarrow> string" where
  "join_nl [] = []"
| "join_nl [l] = l"
| "join_nl (l # l' # ls) = l @ nl # join_nl (l' # ls)"

text \<open>
  \<^verbatim>\<open>s.strip()\<close> removes leading and trailing whitespace; \<open>py_isspace\<close> lists the
  characters for which \<^verbatim>\<open>str.isspace\<close> holds.
\<close>

definition py_isspace :: "char \<Rightarrow> bool" where
  "py_isspace c = ((of_char c :: nat) \<in> {9, 10, 11, 12, 13, 28, 29, 30, 31, 32, 133, 160})"

definition py_strip :: "string \<Rightarrow> string" where
  "py_strip s = rev (dropWhile py_isspace (rev (dropWhile py_isspace s)))"

text \<open>\<^verbatim>\<open>os.path.join(a, b)\<close> on POSIX.\<close>

definition path_join :: "string \<Rightarrow> string \<Rightarrow> string" where
  "path_join a b =
     (if prefix ''/'' b then b
      else if a = [] \<or> suffix ''/'' a then a @ b
      else a @ ''/'' @ b)"

section \<open>Files and the console\<close>

text \<open>
  The file system maps a path to the text of the file there, as text-mode \<^verbatim>\<open>read\<close>
  returns it and \<^verbatim>\<open>write\<close> stores it. Every effect of a script is also recorded, in
  order, in a trace: each write, each removal and each line printed. The lines printed
  are, in the order of the constructors:
  \<^verbatim>\<open>Cleaned up planfiles.mdx\<close> (after a check mark), an indented item of the summary,
  \<^verbatim>\<open>Updating Terraform documentation files...\<close>, \<^verbatim>\<open>Checking {filename}...\<close>,
  \<^verbatim>\<open>File not found: {filename}\<close>, \<^verbatim>\<open>Updated {filename}\<close>,
  \<^verbatim>\<open>No changes needed for {filename}\<close>, \<^verbatim>\<open>Updated {updated_count} files\<close> and
  \<^verbatim>\<open>Removed temporary analysis file\<close>.
\<close>

datatype message =
    CleanedUp
  | Item string
  | Updating
  | Checking string
  | FileNotFound string
  | Updated string
  | NoChanges string
  | UpdatedFiles nat
  | RemovedAnalysis

datatype event = Wrote string string | Removed string | Printed message

record world =
  files :: "string \<rightharpoonup> string"
  trace :: "event list"

datatype error = FileNotFoundError string

definition print_line :: "message \<Rightarrow> world \<Rightarrow> world" where
  "print_line m w = w\<lparr>trace := trace w @ [Printed m]\<rparr>"

definition write_file :: "string \<Rightarrow> string \<Rightarrow> world \<Rightarrow> world" where
  "write_file p s w = w\<lparr>files := (files w)(p \<mapsto> s), trace := trace w @ [Wrote p s]\<rparr>"

definition remove_file :: "string \<Rightarrow> world \<Rightarrow> world" where
  "remove_file p w = w\<lparr>files := (files w)(p := None), trace := trace w @ [Removed p]\<rparr>"

section \<open>Regular expressions of \<^verbatim>\<open>re\<close>, by backtracking\<close>

text \<open>
  Only the constructs that occur in \<^verbatim>\<open>clean_planfiles_doc.py\<close> are modelled:
  literal text, the character classes \<^verbatim>\<open>.\<close> (under \<^verbatim>\<open>re.DOTALL\<close>, where it matches
  every character), \<^verbatim>\<open>\d\<close> and a single character, the greedy repetitions \<^verbatim>\<open>c+\<close> and
  \<^verbatim>\<open>c{n,}\<close>, the lazy repetition \<^verbatim>\<open>c*?\<close>, sequence, alternation, the lookahead
  \<^verbatim>\<open>(?=...)\<close> and \<^verbatim>\<open>$\<close>.
\<close>

datatype cclass = Any | Digit | Only char

fun in_class :: "cclass \<Rightarrow> char \<Rightarrow> bool" where
  "in_class Any c = True"
| "in_class Digit c = (48 \<le> (of_char c :: nat) \<and> (of_char c :: nat) \<le> 57)"
| "in_class (Only d) c = (c = d)"

datatype regex =
    Lit string
  | AtLeast nat cclass
  | Lazy cclass
  | Seq regex regex
  | Alt regex regex
  | Ahead regex
  | Eos

text \<open>
  The matcher is written in continuation-passing style: \<open>rmatch r s k\<close> tries \<open>r\<close> at the
  start of \<open>s\<close> and hands every candidate remainder to \<open>k\<close>, in the order in which a
  backtracking engine tries them; the first candidate that \<open>k\<close> accepts wins.
  A lazy repetition offers the shortest candidate first, a greedy one the longest.
\<close>

fun lazy_star :: "cclass \<Rightarrow> string \<Rightarrow> (string \<Rightarrow> string option) \<Rightarrow> string option" where
  "lazy_star c [] k = k []"
| "lazy_star c (x # xs) k =
     (case k (x # xs) of
        Some r \<Rightarrow> Some r
      | None \<Rightarrow> if in_class c x then lazy_star c xs k else None)"

fun greedy_star :: "cclass \<Rightarrow> string \<Rightarrow> (string \<Rightarrow> string option) \<Rightarrow> string option" where
  "greedy_star c [] k = k []"
| "greedy_star c (x # xs) k =
     (if in_class c x
      then (case greedy_star c xs k of Some r \<Rightarrow> Some r | None \<Rightarrow> k (x # xs))
      else k (x # xs))"

fun exactly :: "nat \<Rightarrow> cclass \<Rightarrow> string \<Rightarrow> (string \<Rightarrow> string option) \<Rightarrow> string option" where
  "exactly 0 c s k = k s"
| "exactly (Suc n) c [] k = None"
| "exactly (Suc n) c (x # xs) k = (if in_class c x then exactly n c xs k else None)"

text \<open>
  \<^verbatim>\<open>$\<close> without \<^verbatim>\<open>re.MULTILINE\<close> matches at the very end of the text and also just
  before a line feed that ends the text.
\<close>

fun rmatch :: "regex \<Rightarrow> string \<Rightarrow> (string \<Rightarrow> string option) \<Rightarrow> string option" where
  "rmatch (Lit l) s k = (if prefix l s then k (drop (length l) s) else None)"
| "rmatch (AtLeast n c) s k = exactly n c s (\<lambda>t. greedy_star c t k)"
| "rmatch (Lazy c) s k = lazy_star c s k"
| "rmatch (Seq a b) s k = rmatch a s (\<lambda>t. rmatch b t k)"
| "rmatch (Alt a b) s k = (case rmatch a s k of Some r \<Rightarrow> Some r | None \<Rightarrow> rmatch b s k)"
| "rmatch (Ahead a) s k = (case rmatch a s Some of Some _ \<Rightarrow> k s | None \<Rightarrow> None)"
| "rmatch Eos s k = (if s = [] \<or> s = [nl] then k s else None)"

text \<open>\<open>match_at r s\<close> is the text left after the match of \<open>r\<close> at the start of \<open>s\<close>.\<close>

definition match_at :: "regex \<Rightarrow> string \<Rightarrow> string option" where
  "match_at r s = rmatch r s Some"

text \<open>
  \<^verbatim>\<open>re.sub(pattern, repl, text)\<close>: scan from the left; where the pattern matches,
  emit the replacement and go on after the match; elsewhere copy one character.
  None of the patterns of the script matches the empty text; for an empty match
  the replacement is emitted and the scan moves on by one character.
\<close>

function re_sub :: "regex \<Rightarrow> string \<Rightarrow> string \<Rightarrow> string" where
  "re_sub r repl s =
     (case match_at r s of
        Some rest \<Rightarrow>
          if length rest < length s then repl @ re_sub r repl rest
          else (case s of [] \<Rightarrow> repl | c # cs \<Rightarrow> repl @ c # re_sub r repl cs)
      | None \<Rightarrow> (case s of [] \<Rightarrow> [] | c # cs \<Rightarrow> c # re_sub r repl cs))"
  by pat_completeness auto
termination
  by (relation "measure (\<lambda>(r, repl, s). length s)") auto

text \<open>\<^verbatim>\<open>re.search(pattern, text) is not None\<close>: the pattern matches somewhere.\<close>

fun re_search :: "regex \<Rightarrow> string \<Rightarrow> bool" where
  "re_search r [] = (match_at r [] \<noteq> None)"
| "re_search r (c # cs) = (match_at r (c # cs) \<noteq> None \<or> re_search r cs)"

section \<open>\<^verbatim>\<open>clean_planfiles_doc.py\<close>\<close>

definition file_path :: string where
  "file_path = ''/Users/erik/Dev/cloudposse/tools/atmos/.conductor/custom-planfile/website/docs/core-concepts/terraform/planfiles.mdx''"

text \<open>\<^verbatim>\<open>r'## CI/CD Integration.*?(?=## |$)'\<close>\<close>

definition ci_cd_pattern :: regex where
  "ci_cd_pattern =
     Seq (Lit ''## CI/CD Integration'') (Seq (Lazy Any) (Ahead (Alt (Lit ''## '') Eos)))"

text \<open>
  \<^verbatim>\<open>r'## Alternative: JSON/YAML Planfiles.*?This performs a semantic comparison of the plan data structures, not a naive text diff\.\n'\<close>
\<close>

definition old_alternative_section :: regex where
  "old_alternative_section =
     Seq (Lit ''## Alternative: JSON/YAML Planfiles'')
       (Seq (Lazy Any)
         (Lit ''This performs a semantic comparison of the plan data structures, not a naive text diff.\<newline>''))"

text \<open>\<^verbatim>\<open>r'### \d+\. Use Planfiles in Production.*?(?=### \d+\.|## |$)'\<close>\<close>

definition production_pattern :: regex where
  "production_pattern =
     Seq (Lit ''### '') (Seq (AtLeast 1 Digit) (Seq (Lit ''. Use Planfiles in Production'')
       (Seq (Lazy Any)
         (Ahead (Alt (Seq (Lit ''### '') (Seq (AtLeast 1 Digit) (Lit ''.'')))
                  (Alt (Lit ''## '') Eos))))))"

text \<open>\<^verbatim>\<open>r'## Best Practices.*?(?=## |$)'\<close>\<close>

definition old_practices :: regex where
  "old_practices =
     Seq (Lit ''## Best Practices'') (Seq (Lazy Any) (Ahead (Alt (Lit ''## '') Eos)))"

text \<open>\<^verbatim>\<open>r'For GitLab-managed.*?```\n'\<close>\<close>

definition gitlab_pattern :: regex where
  "gitlab_pattern = Seq (Lit ''For GitLab-managed'') (Seq (Lazy Any) (Lit ''```\<newline>''))"

text \<open>\<^verbatim>\<open>r'\n{3,}'\<close>\<close>

definition blank_lines_pattern :: regex where
  "blank_lines_pattern = AtLeast 3 (Only nl)"

definition new_alternative_section :: string where
  \<open>new_alternative_section = unlines
   [''## Working with Planfiles in Practice'',
    '''',
    ''### Binary Planfiles (Native Terraform)'',
    '''',
    ''When using supported backends, Atmos automatically generates binary planfiles:'',
    '''',
    ''```bash'',
    ''# Atmos generates: dev-vpc.planfile'',
    ''atmos terraform plan vpc -s dev'',
    '''',
    ''# Apply the generated planfile'',
    ''atmos terraform apply vpc -s dev --from-plan'',
    '''',
    ''# Or specify a custom planfile name'',
    ''atmos terraform plan vpc -s dev -out=my-custom.tfplan'',
    ''atmos terraform apply vpc -s dev --planfile my-custom.tfplan'',
    ''```'',
    '''',
    ''### JSON/YAML Planfiles with `atmos terraform generate planfile`'',
    '''',
    ''For enhanced security scanning, policy validation, or when binary planfiles aren\'t suitable, use Atmos\'s JSON/YAML planfile generation:'',
    '''',
    ''```bash'',
    ''# Generate JSON planfile for security scanning'',
    ''atmos terraform generate planfile vpc -s dev --file-template plan-{{.stack}}-{{.component}}.json'',
    '''',
    ''# Generate YAML planfile for human review'',
    ''atmos terraform generate planfile vpc -s dev --file-template plan-{{.stack}}-{{.component}}.yaml'',
    ''```'',
    '''',
    ''#### Integration with Security and Compliance Tools'',
    '''',
    ''JSON planfiles enable integration with security scanning and policy tools:'',
    '''',
    ''```bash'',
    ''# Generate JSON planfile for security scanning'',
    ''atmos terraform generate planfile vpc -s prod --file-template prod-vpc.json'',
    '''',
    ''# Scan with Wiz.io or similar tools'',
    ''wiz-cli iac scan --format terraform-plan prod-vpc.json'',
    '''',
    ''# Check with Open Policy Agent (OPA)'',
    ''opa eval -d policies/ -i prod-vpc.json "data.terraform.deny[msg]"'',
    '''',
    ''# Validate with Checkov'',
    ''checkov --framework terraform_plan -f prod-vpc.json'',
    '''',
    ''# Analyze with Terrascan'',
    ''terrascan scan -i tfplan -f prod-vpc.json'',
    ''```'',
    '''',
    ''Benefits of JSON/YAML planfiles:'',
    ''- **Security Scanning**: Integrate with tools like Wiz.io, Snyk, Checkov'',
    ''- **Policy as Code**: Validate with OPA, Sentinel, or custom policies'',
    ''- **Human Review**: YAML format is easy to read and review'',
    ''- **Version Control**: Can be safely committed (no binary data)'',
    ''- **Backend Independent**: Works with any backend, including those that don\'t support binary planfiles'',
    ''- **Audit Trail**: Creates reviewable record of planned changes'',
    '''',
    ''### Comparing Planfiles with `atmos terraform plan-diff`'',
    '''',
    ''Compare any two planfiles to understand differences:'',
    '''',
    ''```bash'',
    ''# Compare two JSON planfiles'',
    ''atmos terraform plan-diff --file plan1.json --file2 plan2.json'',
    '''',
    ''# Compare different formats'',
    ''atmos terraform plan-diff --file plan1.yaml --file2 plan2.json --format yaml'',
    '''',
    ''# Compare binary planfile with JSON (after converting)'',
    ''atmos terraform generate planfile vpc -s dev --file-template current.json'',
    ''atmos terraform plan-diff --file baseline.json --file2 current.json'',
    ''```'',
    '''',
    ''This performs a semantic comparison of the plan data structures, not a naive text diff.'']\<close>

definition new_practices :: string where
  \<open>new_practices = unlines
   [''## Best Practices'',
    '''',
    ''### When to Use Planfiles'',
    '''',
    ''**Use planfiles when:**'',
    ''- You need guaranteed consistency between plan and apply'',
    ''- Multiple team members review changes before applying'',
    ''- Compliance requires an audit trail of approved changes'',
    ''- You want to prevent drift between planning and execution'',
    ''- Running in automated pipelines where plans need approval'',
    '''',
    ''**Skip planfiles when:**'',
    ''- Working in development environments with rapid iteration'',
    ''- Using backends that don\'t support them (Remote, Terraform Cloud)'',
    ''- Backend credentials would be embedded (HTTP backend)'',
    ''- Real-time infrastructure state is critical'',
    '''',
    ''### Security Considerations'',
    '''',
    ''1. **Never commit binary planfiles to version control** - They may contain sensitive data'',
    ''2. **Use environment variables for backend authentication** - Avoid `-backend-config` with sensitive values'',
    ''3. **Consider JSON planfiles for sensitive environments** - Use `atmos terraform generate planfile` for reviewable, scannable output'',
    ''4. **Set appropriate file permissions** - Planfiles should be readable only by authorized users'',
    ''5. **Clean up old planfiles** - Remove after applying or when no longer needed'',
    '''',
    ''### Choosing the Right Approach'',
    '''',
    ''| Scenario | Recommended Approach | Command |'',
    ''|----------|---------------------|---------|'',
    ''| Production deployment with approval | Binary planfile | `atmos terraform plan vpc -s prod` |'',
    ''| Security scanning required | JSON planfile | `atmos terraform generate planfile vpc -s prod --file-template plan.json` |'',
    ''| Using HTTP backend | Skip planfiles | `atmos terraform plan vpc -s prod --skip-planfile` |'',
    ''| Rapid development iteration | Skip planfiles | `atmos terraform deploy vpc -s dev` |'',
    ''| Compliance audit required | JSON planfile + version control | `atmos terraform generate planfile` with Git |'',
    '''']\<close>

text \<open>
  The transformation of the text between reading and writing: six substitutions, each
  assigned back to \<^verbatim>\<open>content\<close>.
\<close>

definition clean_content :: "string \<Rightarrow> string" where
  "clean_content content0 =
     (let content = re_sub ci_cd_pattern [] content0;
          content = re_sub old_alternative_section new_alternative_section content;
          content = re_sub production_pattern [] content;
          content = re_sub old_practices new_practices content;
          content = re_sub gitlab_pattern [] content;
          content = re_sub blank_lines_pattern [nl, nl] content
      in content)"

text \<open>
  The script: \<^verbatim>\<open>open(file_path, 'r')\<close> raises \<^verbatim>\<open>FileNotFoundError\<close> when the page is
  missing; otherwise the text is transformed, written back and the summary printed.
\<close>

definition clean_summary :: "message list" where
  "clean_summary =
     [CleanedUp,
      Item ''Removed unvalidated CI/CD examples'',
      Item ''Enhanced JSON/YAML planfile section with security tools'',
      Item ''Focused on why, when, and how to use planfiles'',
      Item ''Added practical command examples'']"

definition clean_planfiles_doc :: "world \<Rightarrow> error + world" where
  "clean_planfiles_doc w =
     (case files w file_path of
        None \<Rightarrow> Inl (FileNotFoundError file_path)
      | Some content \<Rightarrow>
          Inr (fold print_line clean_summary (write_file file_path (clean_content content) w)))"

section \<open>\<^verbatim>\<open>update_terraform_docs.py\<close>\<close>

definition base_path :: string where
  "base_path = ''/Users/erik/Dev/cloudposse/tools/atmos/.conductor/custom-planfile/website/docs/cli/commands/terraform''"

text \<open>
  The dictionary \<^verbatim>\<open>updates\<close>, in insertion order (the order in which \<^verbatim>\<open>items()\<close>
  yields it); each value is a dictionary from a key to a text.
\<close>

definition updates :: \<open>(string \<times> (string \<rightharpoonup> string)) list\<close> where
  \<open>updates =
   [(''terraform-fmt.mdx'',
      [''purpose_addon'' \<mapsto> '' This command is a direct passthrough to the native `terraform fmt` command.'',
       ''info_box'' \<mapsto> ''\<newline>\<newline>:::info Atmos Behavior\<newline>This is a pure passthrough command. Atmos does not perform automatic initialization, workspace management, or variable generation for `terraform fmt`. The command is executed directly in the component directory.\<newline>:::'']),
    (''terraform-version.mdx'',
      [''purpose_addon'' \<mapsto> '' This command is a direct passthrough to the native `terraform version` command.'',
       ''info_box'' \<mapsto> ''\<newline>\<newline>:::info Atmos Behavior\<newline>This is a pure passthrough command. Atmos does not perform any special processing for `terraform version`. The command is executed directly without workspace management or variable generation.\<newline>:::'']),
    (''terraform-login.mdx'',
      [''purpose_addon'' \<mapsto> '''',
       ''info_box'' \<mapsto> ''\<newline>\<newline>:::info Atmos Behavior\<newline>This is a pure passthrough command. Atmos does not perform automatic initialization or workspace management for `terraform login`. The command is executed directly to manage Terraform Cloud credentials.\<newline>:::'']),
    (''terraform-logout.mdx'',
      [''purpose_addon'' \<mapsto> '''',
       ''info_box'' \<mapsto> ''\<newline>\<newline>:::info Atmos Behavior\<newline>This is a pure passthrough command. Atmos does not perform automatic initialization or workspace management for `terraform logout`. The command is executed directly to manage Terraform Cloud credentials.\<newline>:::'']),
    (''terraform-console.mdx'',
      [''purpose_addon'' \<mapsto> '''',
       ''info_box'' \<mapsto> ''\<newline>\<newline>:::info Atmos Behavior\<newline>Atmos provides standard setup for this command including automatic `terraform init`, workspace selection, and variable file generation. The console itself operates as native Terraform.\<newline>:::'']),
    (''terraform-output.mdx'',
      [''purpose_addon'' \<mapsto> '''',
       ''info_box'' \<mapsto> ''\<newline>\<newline>:::info Atmos Behavior\<newline>Atmos provides standard setup for this command including automatic `terraform init`, workspace selection, and variable file generation. The output retrieval itself is handled by native Terraform.\<newline>:::'']),
    (''terraform-show.mdx'',
      [''purpose_addon'' \<mapsto> '''',
       ''info_box'' \<mapsto> ''\<newline>\<newline>:::info Atmos Behavior\<newline>Atmos provides standard setup for this command including automatic `terraform init` and workspace selection. The show operation itself is handled by native Terraform.\<newline>:::'']),
    (''terraform-providers.mdx'',
      [''purpose_addon'' \<mapsto> '''',
       ''info_box'' \<mapsto> ''\<newline>\<newline>:::info Atmos Behavior\<newline>Atmos provides standard setup for this command including automatic `terraform init` and workspace selection. The provider information display is handled by native Terraform.\<newline>:::'']),
    (''terraform-graph.mdx'',
      [''purpose_addon'' \<mapsto> '''',
       ''info_box'' \<mapsto> ''\<newline>\<newline>:::info Atmos Behavior\<newline>Atmos provides standard setup for this command including automatic `terraform init` and workspace selection. The graph generation itself is handled by native Terraform.\<newline>:::'']),
    (''terraform-get.mdx'',
      [''purpose_addon'' \<mapsto> '''',
       ''info_box'' \<mapsto> ''\<newline>\<newline>:::info Atmos Behavior\<newline>Atmos provides standard setup for this command including automatic `terraform init` and workspace selection. The module download operation is handled by native Terraform.\<newline>:::'']),
    (''terraform-force-unlock.mdx'',
      [''purpose_addon'' \<mapsto> '''',
       ''info_box'' \<mapsto> ''\<newline>\<newline>:::info Atmos Behavior\<newline>Atmos provides standard setup for this command including automatic `terraform init` and workspace selection. The unlock operation itself is handled by native Terraform.\<newline>:::'']),
    (''terraform-test.mdx'',
      [''purpose_addon'' \<mapsto> '''',
       ''info_box'' \<mapsto> ''\<newline>\<newline>:::info Atmos Behavior\<newline>Atmos provides standard setup for this command including automatic `terraform init` and workspace selection. The test execution is handled by native Terraform.\<newline>:::'']),
    (''terraform-metadata.mdx'',
      [''purpose_addon'' \<mapsto> '''',
       ''info_box'' \<mapsto> ''\<newline>\<newline>:::info Atmos Behavior\<newline>Atmos provides standard setup for this command including automatic `terraform init` and workspace selection. The metadata operations are handled by native Terraform.\<newline>:::'']),
    (''terraform-modules.mdx'',
      [''purpose_addon'' \<mapsto> '''',
       ''info_box'' \<mapsto> ''\<newline>\<newline>:::info Atmos Behavior\<newline>Atmos provides standard setup for this command including automatic `terraform init` and workspace selection. The module listing is handled by native Terraform.\<newline>:::'']),
    (''terraform-validate.mdx'',
      [''purpose_addon'' \<mapsto> '''',
       ''info_box'' \<mapsto> ''\<newline>\<newline>:::info Atmos Behavior\<newline>Atmos provides standard setup for this command including automatic `terraform init` and workspace selection. The validation itself is performed by native Terraform.\<newline>:::'']),
    (''terraform-state.mdx'',
      [''purpose_addon'' \<mapsto> '''',
       ''info_box'' \<mapsto> ''\<newline>\<newline>:::info Atmos Behavior\<newline>Atmos provides standard setup for this command including automatic `terraform init` and workspace selection. Additionally, Atmos blocks state modifications if the component is locked (`metadata.locked: true`). The state operations themselves are handled by native Terraform.\<newline>:::'']),
    (''terraform-taint.mdx'',
      [''purpose_addon'' \<mapsto> '''',
       ''info_box'' \<mapsto> ''\<newline>\<newline>:::info Atmos Behavior\<newline>Atmos provides standard setup for this command including automatic `terraform init`, workspace selection, and variable file generation. Additionally, Atmos blocks this operation if the component is locked (`metadata.locked: true`). The taint operation itself is handled by native Terraform.\<newline>:::'']),
    (''terraform-untaint.mdx'',
      [''purpose_addon'' \<mapsto> '''',
       ''info_box'' \<mapsto> ''\<newline>\<newline>:::info Atmos Behavior\<newline>Atmos provides standard setup for this command including automatic `terraform init`, workspace selection, and variable file generation. Additionally, Atmos blocks this operation if the component is locked (`metadata.locked: true`). The untaint operation itself is handled by native Terraform.\<newline>:::'']),
    (''terraform-import.mdx'',
      [''purpose_addon'' \<mapsto> '''',
       ''info_box'' \<mapsto> ''\<newline>\<newline>:::info Atmos Enhancements\<newline>Atmos provides several enhancements for the import command:\<newline>- Automatic `terraform init` before importing\<newline>- Workspace selection and management\<newline>- Variable file generation and passing\<newline>- **Automatic AWS_REGION environment variable** setting based on the component\'s region variable\<newline>- Component locking support (blocks import if `metadata.locked: true`)\<newline>:::'']),
    (''terraform-refresh.mdx'',
      [''purpose_addon'' \<mapsto> '''',
       ''info_box'' \<mapsto> ''\<newline>\<newline>:::info Atmos Enhancements\<newline>Atmos enhances the refresh command with:\<newline>- Automatic `terraform init` before refreshing\<newline>- Workspace selection and management\<newline>- **Automatic variable file generation and passing**\<newline>- Backend configuration\<newline>- Component validation\<newline>:::'']),
    (''terraform-destroy.mdx'',
      [''purpose_addon'' \<mapsto> '''',
       ''info_box'' \<mapsto> ''\<newline>\<newline>:::info Atmos Enhancements\<newline>Atmos enhances the destroy command with:\<newline>- Automatic `terraform init` before destroying\<newline>- Workspace selection and management\<newline>- **Automatic variable file generation and passing**\<newline>- Backend configuration\<newline>- Component validation and locking support\<newline>:::''])]\<close>

text \<open>
  A value of \<^verbatim>\<open>updates_dict.get(key)\<close> is true in a condition when the key is present
  and its text is not empty.
\<close>

definition truthy :: "string option \<Rightarrow> bool" where
  "truthy v = (case v of None \<Rightarrow> False | Some s \<Rightarrow> s \<noteq> [])"

text \<open>
  One turn of the loop over \<^verbatim>\<open>enumerate(lines)\<close>: the line is appended; the first time
  an empty line follows a line that starts with \<^verbatim>\<open>This command\<close>, the stripped box is
  appended after it.
\<close>

definition info_step ::
  "string list \<Rightarrow> string \<Rightarrow> string list \<times> bool \<Rightarrow> nat \<times> string \<Rightarrow> string list \<times> bool" where
  "info_step lines info_box acc il =
     (case acc of (new_lines, added_info) \<Rightarrow>
      case il of (i, line) \<Rightarrow>
        if \<not> added_info \<and> i > 0 \<and> startswith (lines ! (i - 1)) ''This command'' \<and> line = []
        then (new_lines @ [line] @ [py_strip info_box], True)
        else (new_lines @ [line], added_info))"

definition add_info_box :: "string \<Rightarrow> string \<Rightarrow> string" where
  "add_info_box info_box content =
     (let lines = split_nl content;
          (new_lines, added_info) = foldl (info_step lines info_box) ([], False) (enumerate 0 lines)
      in if added_info then join_nl new_lines else content)"

text \<open>Lines 104 to 134 of \<^verbatim>\<open>update_file\<close>: the text that is compared with the original.\<close>

definition update_content :: "(string \<rightharpoonup> string) \<Rightarrow> string \<Rightarrow> string" where
  "update_content updates_dict original_content =
     (let content = original_content;
          content =
            (if truthy (updates_dict ''purpose_addon'')
             then py_replace '':::\<newline>\<newline><Screengrab''
                    (the (updates_dict ''purpose_addon'') @ ''\<newline>:::\<newline>\<newline><Screengrab'')
                    (py_replace '':::note purpose\<newline>Use this command''
                       '':::note purpose\<newline>Use this command'' content)
             else content);
          content =
            (if truthy (updates_dict ''info_box'')
             then add_info_box (the (updates_dict ''info_box'')) content
             else content)
      in content)"

definition update_file :: "string \<Rightarrow> (string \<rightharpoonup> string) \<Rightarrow> world \<Rightarrow> bool \<times> world" where
  "update_file filename updates_dict w =
     (let filepath = path_join base_path filename in
      case files w filepath of
        None \<Rightarrow> (False, print_line (FileNotFound filename) w)
      | Some original_content \<Rightarrow>
          (let content = update_content updates_dict original_content in
           if content \<noteq> original_content
           then (True, write_file filepath content w)
           else (False, w)))"

text \<open>The loop over \<^verbatim>\<open>updates.items()\<close>, with the counter \<^verbatim>\<open>updated_count\<close>.\<close>

fun apply_updates ::
  "(string \<times> (string \<rightharpoonup> string)) list \<Rightarrow> nat \<Rightarrow> world \<Rightarrow> nat \<times> world" where
  "apply_updates [] updated_count w = (updated_count, w)"
| "apply_updates ((filename, updates_dict) # rest) updated_count w =
     (case update_file filename updates_dict (print_line (Checking filename) w) of
        (True, w') \<Rightarrow> apply_updates rest (updated_count + 1) (print_line (Updated filename) w')
      | (False, w') \<Rightarrow> apply_updates rest updated_count (print_line (NoChanges filename) w'))"

definition analysis_file :: string where
  "analysis_file = ''/Users/erik/Dev/cloudposse/tools/atmos/.conductor/custom-planfile/terraform_command_analysis.md''"

definition update_terraform_docs :: "world \<Rightarrow> world" where
  "update_terraform_docs w0 =
     (case apply_updates updates 0 (print_line Updating w0) of
        (updated_count, w) \<Rightarrow>
          (let w = print_line (UpdatedFiles updated_count) w in
           if files w analysis_file \<noteq> None
           then print_line RemovedAnalysis (remove_file analysis_file w)
           else w))"

section \<open>What the claims are stated in\<close>

subsection \<open>Collapsing blank lines, stated on the text\<close>

text \<open>
  \<open>replace_each locate new s\<close>: from the left, wherever \<open>locate\<close> finds an occurrence
  that starts at the current position (it returns the text after the occurrence), put
  \<open>new\<close> in its place and go on after it; every other character is kept.
\<close>

function replace_each :: "(string \<Rightarrow> string option) \<Rightarrow> string \<Rightarrow> string \<Rightarrow> string" where
  "replace_each locate new [] = []"
| "replace_each locate new (c # cs) =
     (case locate (c # cs) of
        Some rest \<Rightarrow>
          if length rest \<le> length cs then new @ replace_each locate new rest
          else c # replace_each locate new cs
      | None \<Rightarrow> c # replace_each locate new cs)"
  by pat_completeness auto
termination
  by (relation "measure (\<lambda>(locate, new, s). length s)") auto

text \<open>A run of three or more line feeds, taken whole.\<close>

definition newline_run_at :: "string \<Rightarrow> string option" where
  "newline_run_at s =
     (if 3 \<le> length (takeWhile (\<lambda>c. c = nl) s) then Some (dropWhile (\<lambda>c. c = nl) s) else None)"

definition collapse_blank_lines :: "string \<Rightarrow> string" where
  "collapse_blank_lines = replace_each newline_run_at [nl, nl]"

subsection \<open>Patterns that still match\<close>

definition clean_patterns_match :: "string \<Rightarrow> bool" where
  "clean_patterns_match content =
     (re_search ci_cd_pattern content \<or> re_search old_alternative_section content
      \<or> re_search production_pattern content \<or> re_search old_practices content
      \<or> re_search gitlab_pattern content \<or> re_search blank_lines_pattern content)"

text \<open>
  The place where \<^verbatim>\<open>update_file\<close> puts the box: the first index \<open>i > 0\<close> of an empty line
  whose predecessor starts with \<^verbatim>\<open>This command\<close>.
\<close>

definition insertion_point :: "string list \<Rightarrow> nat option" where
  "insertion_point lines =
     find (\<lambda>i. 0 < i \<and> startswith (lines ! (i - 1)) ''This command'' \<and> lines ! i = [])
       [0..<length lines]"


text \<open>
  The two steps of \<^verbatim>\<open>update_file\<close> that change the text: the purpose addon (its second
  \<^verbatim>\<open>replace\<close>) and the info box.
\<close>

definition purpose_step :: "(string \<rightharpoonup> string) \<Rightarrow> string \<Rightarrow> string" where
  "purpose_step updates_dict content =
     (if truthy (updates_dict ''purpose_addon'')
      then py_replace '':::\<newline>\<newline><Screengrab''
             (the (updates_dict ''purpose_addon'') @ ''\<newline>:::\<newline>\<newline><Screengrab'') content
      else content)"

definition info_box_step :: "(string \<rightharpoonup> string) \<Rightarrow> string \<Rightarrow> string" where
  "info_box_step updates_dict content =
     (if truthy (updates_dict ''info_box'')
      then add_info_box (the (updates_dict ''info_box'')) content
      else content)"

subsection \<open>Events of one run\<close>

text \<open>The events that a run adds to the trace it started with.\<close>

definition new_events :: "world \<Rightarrow> world \<Rightarrow> event list" where
  "new_events w w' = drop (length (trace w)) (trace w')"

fun is_write :: "event \<Rightarrow> bool" where
  "is_write (Wrote p s) = True"
| "is_write e = False"

fun is_removal :: "event \<Rightarrow> bool" where
  "is_removal (Removed p) = True"
| "is_removal e = False"

fun reported_count :: "event \<Rightarrow> nat option" where
  "reported_count (Printed (UpdatedFiles n)) = Some n"
| "reported_count e = None"

text \<open>The events of the loop over \<^verbatim>\<open>updates\<close>: its progress lines and its writes.\<close>

fun loop_event :: "event \<Rightarrow> bool" where
  "loop_event (Printed (Checking f)) = True"
| "loop_event (Printed (FileNotFound f)) = True"
| "loop_event (Printed (Updated f)) = True"
| "loop_event (Printed (NoChanges f)) = True"
| "loop_event (Wrote p s) = True"
| "loop_event e = False"

text \<open>The files of \<^verbatim>\<open>updates\<close> whose text differs between two worlds.\<close>

definition modified_files :: "world \<Rightarrow> world \<Rightarrow> string list" where
  "modified_files w w' =
     filter (\<lambda>filename. files w' (path_join base_path filename) \<noteq> files w (path_join base_path filename))
       (map fst updates)"

text \<open>\<^verbatim>\<open>updates[filename]\<close>, for a file name of the dictionary.\<close>

definition updates_for :: "string \<Rightarrow> (string \<rightharpoonup> string)" where
  "updates_for filename = (case map_of updates filename of Some d \<Rightarrow> d | None \<Rightarrow> Map.empty)"

subsection \<open>\<^verbatim>\<open>update_file\<close> without its first replacement\<close>

definition update_content_simplified :: "(string \<rightharpoonup> string) \<Rightarrow> string \<Rightarrow> string" where
  "update_content_simplified updates_dict original_content =
     (let content = original_content;
          content =
            (if truthy (updates_dict ''purpose_addon'')
             then py_replace '':::\<newline>\<newline><Screengrab''
                    (the (updates_dict ''purpose_addon'') @ ''\<newline>:::\<newline>\<newline><Screengrab'')
                    content
             else content);
          content =
            (if truthy (updates_dict ''info_box'')
             then add_info_box (the (updates_dict ''info_box'')) content
             else content)
      in content)"

definition update_file_simplified ::
  "string \<Rightarrow> (string \<rightharpoonup> string) \<Rightarrow> world \<Rightarrow> bool \<times> world" where
  "update_file_simplified filename updates_dict w =
     (let filepath = path_join base_path filename in
      case files w filepath of
        None \<Rightarrow> (False, print_line (FileNotFound filename) w)
      | Some original_content \<Rightarrow>
          (let content = update_content_simplified updates_dict original_content in
           if content \<noteq> original_content
           then (True, write_file filepath content w)
           else (False, w)))"


section \<open>Facts about the matcher\<close>

declare re_sub.simps [simp del] py_replace.simps [simp del] split_nl.simps [simp del]


lemma greedy_star_Some: "greedy_star c s Some = Some (dropWhile (in_class c) s)"
  by (induction s) auto

lemma exactly_takeWhile:
  "exactly n c s k = (if n \<le> length (takeWhile (in_class c) s) then k (drop n s) else None)"
  by (induction n c s k rule: exactly.induct) auto

lemma dropWhile_drop:
  "n \<le> length (takeWhile P s) \<Longrightarrow> dropWhile P (drop n s) = dropWhile P s"
proof (induction s arbitrary: n)
  case Nil
  then show ?case by simp
next
  case (Cons x xs)
  then show ?case by (cases n) (auto split: if_splits)
qed

lemma in_class_Only: "in_class (Only d) = (\<lambda>c. c = d)"
  by (rule ext) simp

lemma match_at_blank_lines: "match_at blank_lines_pattern s = newline_run_at s"
  unfolding match_at_def blank_lines_pattern_def newline_run_at_def
  by (simp add: exactly_takeWhile greedy_star_Some dropWhile_drop in_class_Only del: exactly.simps)

lemma re_sub_None:
  "match_at r s = None \<Longrightarrow> re_sub r repl s = (case s of [] \<Rightarrow> [] | c # cs \<Rightarrow> c # re_sub r repl cs)"
  by (subst re_sub.simps) simp

lemma re_sub_Some:
  "match_at r s = Some rest \<Longrightarrow> length rest < length s \<Longrightarrow>
   re_sub r repl s = repl @ re_sub r repl rest"
  by (subst re_sub.simps) simp

lemma re_sub_replace_each:
  assumes same: "\<And>t. match_at r t = locate t"
    and proper: "\<And>t rest. locate t = Some rest \<Longrightarrow> length rest < length t"
  shows "re_sub r repl s = replace_each locate repl s"
proof (induction s rule: length_induct)
  case (1 s)
  show ?case
  proof (cases "locate s")
    case None
    then have m: "match_at r s = None"
      by (simp add: same)
    show ?thesis
    proof (cases s)
      case Nil
      with m show ?thesis by (simp add: re_sub_None)
    next
      case (Cons c cs)
      with m None "1.IH" show ?thesis by (simp add: re_sub_None)
    qed
  next
    case (Some rest)
    then have m: "match_at r s = Some rest"
      by (simp add: same)
    have less: "length rest < length s"
      using Some by (rule proper)
    then obtain c cs where s: "s = c # cs"
      by (cases s) auto
    from less "1.IH" have "re_sub r repl rest = replace_each locate repl rest"
      by blast
    with m less Some s show ?thesis
      by (simp add: re_sub_Some)
  qed
qed

lemma newline_run_at_proper:
  assumes "newline_run_at t = Some rest"
  shows "length rest < length t"
proof -
  from assms have "3 \<le> length (takeWhile (\<lambda>c. c = nl) t)" and "rest = dropWhile (\<lambda>c. c = nl) t"
    by (auto simp: newline_run_at_def split: if_splits)
  moreover have "length (takeWhile (\<lambda>c. c = nl) t) + length (dropWhile (\<lambda>c. c = nl) t) = length t"
    by (metis length_append takeWhile_dropWhile_id)
  ultimately show ?thesis by simp
qed

lemma re_sub_blank_lines: "re_sub blank_lines_pattern repl s = replace_each newline_run_at repl s"
  by (rule re_sub_replace_each [OF match_at_blank_lines newline_run_at_proper])


lemma re_sub_no_match: "\<not> re_search r s \<Longrightarrow> re_sub r repl s = s"
  by (induction s) (simp_all add: re_sub_None)

lemma prefix_newlines_run:
  "prefix (replicate n nl) s \<Longrightarrow> n \<le> length (takeWhile (\<lambda>c. c = nl) s)"
proof (induction n arbitrary: s)
  case 0
  then show ?case by simp
next
  case (Suc n)
  then show ?case by (cases s) auto
qed

lemma no_run_Cons:
  assumes "\<not> sublist [nl, nl, nl] t" and "length (takeWhile (\<lambda>c. c = nl) (c # t)) \<le> 2"
  shows "\<not> sublist [nl, nl, nl] (c # t)"
proof
  assume "sublist [nl, nl, nl] (c # t)"
  with assms(1) have "prefix [nl, nl, nl] (c # t)"
    unfolding sublist_Cons_right [of _ c t] by blast
  moreover have "replicate 3 nl = [nl, nl, nl]"
    by (simp add: numeral_3_eq_3)
  ultimately have "prefix (replicate 3 nl) (c # t)"
    by (simp only:)
  then have "3 \<le> length (takeWhile (\<lambda>c. c = nl) (c # t))"
    by (rule prefix_newlines_run)
  with assms(2) show False by simp
qed

lemma collapse_runs:
  "length (takeWhile (\<lambda>c. c = nl) (collapse_blank_lines s)) \<le> 2
   \<and> length (takeWhile (\<lambda>c. c = nl) (collapse_blank_lines s)) \<le> length (takeWhile (\<lambda>c. c = nl) s)
   \<and> \<not> sublist [nl, nl, nl] (collapse_blank_lines s)"
proof (induction s rule: length_induct)
  case (1 s)
  let ?run = "\<lambda>t. length (takeWhile (\<lambda>c. c = nl) t)"
  show ?case
  proof (cases s)
    case Nil
    then show ?thesis by (simp add: collapse_blank_lines_def)
  next
    case (Cons c cs)
    show ?thesis
    proof (cases "newline_run_at s")
      case None
      then have short: "?run s < 3"
        by (simp add: newline_run_at_def split: if_splits)
      from None Cons have eq: "collapse_blank_lines s = c # collapse_blank_lines cs"
        by (simp add: collapse_blank_lines_def)
      from "1.IH" Cons have ih: "?run (collapse_blank_lines cs) \<le> ?run cs"
        "\<not> sublist [nl, nl, nl] (collapse_blank_lines cs)"
        by simp_all
      from short ih(1) Cons have a: "?run (c # collapse_blank_lines cs) \<le> 2"
        "?run (c # collapse_blank_lines cs) \<le> ?run s"
        by auto
      with ih(2) have "\<not> sublist [nl, nl, nl] (c # collapse_blank_lines cs)"
        by (intro no_run_Cons)
      with a eq show ?thesis by simp
    next
      case (Some rest)
      then have long: "3 \<le> ?run s" and rest: "rest = dropWhile (\<lambda>c. c = nl) s"
        by (auto simp: newline_run_at_def split: if_splits)
      from Some have less: "length rest < length s"
        by (rule newline_run_at_proper)
      with Some Cons have eq: "collapse_blank_lines s = nl # nl # collapse_blank_lines rest"
        by (simp add: collapse_blank_lines_def)
      have "?run rest = 0"
      proof (cases rest)
        case Nil
        then show ?thesis by simp
      next
        case (Cons x xs)
        with rest have "dropWhile (\<lambda>c. c = nl) s = x # xs"
          by simp
        then have "x \<noteq> nl"
          by (simp add: dropWhile_eq_Cons_conv)
        with Cons show ?thesis by simp
      qed
      with "1.IH" less have ih: "?run (collapse_blank_lines rest) = 0"
        "\<not> sublist [nl, nl, nl] (collapse_blank_lines rest)"
        by (auto simp del: length_0_conv)
      then have a: "?run (nl # nl # collapse_blank_lines rest) = 2"
        by simp
      from ih have b: "\<not> sublist [nl, nl, nl] (nl # collapse_blank_lines rest)"
        by (intro no_run_Cons) simp_all
      have "\<not> sublist [nl, nl, nl] (nl # nl # collapse_blank_lines rest)"
        by (rule no_run_Cons [OF b]) (use ih(1) in simp)
      with a long eq show ?thesis by simp
    qed
  qed
qed


lemma split_nl_not_Nil: "split_nl s \<noteq> []"
  by (subst split_nl.simps) (simp split: list.splits)

lemma join_split: "join_nl (split_nl s) = s"
proof (induction s rule: length_induct)
  case (1 s)
  show ?case
  proof (cases "dropWhile (\<lambda>c. c \<noteq> nl) s")
    case Nil
    show ?thesis by (subst split_nl.simps) (simp only: Nil list.case join_nl.simps)
  next
    case (Cons x rest)
    then have x: "x = nl"
      by (simp add: dropWhile_eq_Cons_conv)
    have "length (dropWhile (\<lambda>c. c \<noteq> nl) s) \<le> length s"
      by (rule length_dropWhile_le)
    with Cons have "length rest < length s" by simp
    with "1.IH" have ih: "join_nl (split_nl rest) = rest" by blast
    obtain l ls where sp: "split_nl rest = l # ls"
      using split_nl_not_Nil [of rest] by (cases "split_nl rest") auto
    have "join_nl (split_nl s) = takeWhile (\<lambda>c. c \<noteq> nl) s @ nl # join_nl (split_nl rest)"
      by (subst split_nl.simps) (simp add: Cons sp)
    also have "\<dots> = takeWhile (\<lambda>c. c \<noteq> nl) s @ dropWhile (\<lambda>c. c \<noteq> nl) s"
      by (simp add: ih Cons x)
    finally show ?thesis by simp
  qed
qed

lemma info_loop_added:
  "foldl (info_step L box) (acc, True) xs = (acc @ map snd xs, True)"
  by (induction xs arbitrary: acc) (auto simp: info_step_def)

lemma map_snd_enumerate: "map snd (enumerate k xs) = xs"
  by (simp add: enumerate_eq_zip)

lemma info_loop:
  assumes "k \<le> length L"
  shows "foldl (info_step L box) (acc, False) (enumerate k (drop k L)) =
    (case find (\<lambda>i. 0 < i \<and> startswith (L ! (i - 1)) ''This command'' \<and> L ! i = []) [k..<length L] of
       None \<Rightarrow> (acc @ drop k L, False)
     | Some i \<Rightarrow> (acc @ take (Suc i - k) (drop k L) @ [py_strip box] @ drop (Suc i) L, True))"
  using assms
proof (induction "length L - k" arbitrary: k acc)
  case 0
  then show ?case by simp
next
  case (Suc n)
  let ?P = "\<lambda>i. 0 < i \<and> startswith (L ! (i - 1)) ''This command'' \<and> L ! i = []"
  from Suc.hyps(2) have k: "k < length L" by simp
  then have d: "drop k L = L ! k # drop (Suc k) L"
    by (simp add: Cons_nth_drop_Suc)
  from k have u: "[k..<length L] = k # [Suc k..<length L]"
    by (simp add: upt_conv_Cons)
  show ?case
  proof (cases "?P k")
    case True
    then have "info_step L box (acc, False) (k, L ! k) = (acc @ [L ! k] @ [py_strip box], True)"
      by (simp add: info_step_def)
    then have "foldl (info_step L box) (acc, False) (enumerate k (drop k L)) =
        (acc @ [L ! k] @ [py_strip box] @ drop (Suc k) L, True)"
      by (simp add: d info_loop_added map_snd_enumerate)
    moreover from True have "find ?P [k..<length L] = Some k"
      by (simp add: u)
    ultimately show ?thesis
      by (simp add: d)
  next
    case False
    then have "info_step L box (acc, False) (k, L ! k) = (acc @ [L ! k], False)"
      by (auto simp: info_step_def)
    then have f: "foldl (info_step L box) (acc, False) (enumerate k (drop k L)) =
        foldl (info_step L box) (acc @ [L ! k], False) (enumerate (Suc k) (drop (Suc k) L))"
      by (simp add: d)
    from Suc.hyps(2) k have "n = length L - Suc k" and "Suc k \<le> length L"
      by simp_all
    note ih = Suc.hyps(1) [OF this, of "acc @ [L ! k]"]
    from False have fk: "find ?P [k..<length L] = find ?P [Suc k..<length L]"
      unfolding u by (simp only: find.simps if_False)
    show ?thesis
    proof (cases "find ?P [Suc k..<length L]")
      case None
      with f ih fk show ?thesis by (simp add: d)
    next
      case (Some i)
      then have "i \<in> set [Suc k..<length L]"
        by (auto simp: find_Some_iff)
      then have "Suc i - k = Suc (Suc i - Suc k)"
        by auto
      with f ih fk Some show ?thesis by (simp add: d)
    qed
  qed
qed

lemma add_info_box_point:
  "add_info_box box content =
     (case insertion_point (split_nl content) of
        None \<Rightarrow> content
      | Some i \<Rightarrow> join_nl (take (Suc i) (split_nl content) @ [py_strip box] @ drop (Suc i) (split_nl content)))"
  using info_loop [of 0 "split_nl content" box "[]"]
  by (simp add: add_info_box_def insertion_point_def Let_def split: option.splits)


lemma py_replace_same: "py_replace old old s = s"
proof (induction s rule: length_induct)
  case (1 s)
  show ?case
  proof (cases "old = []")
    case True
    have "concat (map (\<lambda>c. [c]) s) = s"
      by (induction s) simp_all
    with True show ?thesis
      by (subst py_replace.simps) simp
  next
    case False
    show ?thesis
    proof (cases "prefix old s")
      case True
      then obtain t where s: "s = old @ t"
        by (auto simp: prefix_def)
      with False have "length t < length s"
        by (cases old) simp_all
      with "1.IH" have "py_replace old old t = t"
        by blast
      with False True s show ?thesis
        by (subst py_replace.simps) simp
    next
      case np: False
      show ?thesis
      proof (cases s)
        case Nil
        with False np show ?thesis by (subst py_replace.simps) simp
      next
        case (Cons c cs)
        with "1.IH" have "py_replace old old cs = cs" by simp
        with False np Cons show ?thesis by (subst py_replace.simps) simp
      qed
    qed
  qed
qed



lemma clean_content_no_match:
  assumes "\<not> clean_patterns_match content"
  shows "clean_content content = content"
  using assms unfolding clean_content_def clean_patterns_match_def Let_def
  by (simp add: re_sub_no_match)


lemma files_print_line [simp]: "files (print_line m w) = files w"
  by (simp add: print_line_def)

lemma trace_print_line [simp]: "trace (print_line m w) = trace w @ [Printed m]"
  by (simp add: print_line_def)

lemma update_file_absent:
  "files w (path_join base_path filename) = None \<Longrightarrow>
   update_file filename updates_dict w = (False, print_line (FileNotFound filename) w)"
  by (simp add: update_file_def)

lemma update_file_present:
  "files w (path_join base_path filename) = Some c \<Longrightarrow>
   update_file filename updates_dict w =
     (if update_content updates_dict c \<noteq> c
      then (True, write_file (path_join base_path filename) (update_content updates_dict c) w)
      else (False, w))"
  by (simp add: update_file_def Let_def)

lemma update_file_effect:
  assumes "update_file f d w = (b, w')"
  shows "(\<forall>p. p \<noteq> path_join base_path f \<longrightarrow> files w' p = files w p)
    \<and> (files w' (path_join base_path f) \<noteq> files w (path_join base_path f) \<longleftrightarrow> b)
    \<and> (\<forall>p. files w' p = None \<longleftrightarrow> files w p = None)
    \<and> (\<exists>evs. trace w' = trace w @ evs \<and> list_all loop_event evs)"
proof (cases "files w (path_join base_path f)")
  case None
  with assms show ?thesis
    by (auto simp: update_file_absent)
next
  case (Some c)
  with assms show ?thesis
    by (auto simp: update_file_present write_file_def split: if_splits)
qed

lemma apply_updates_effect:
  assumes "apply_updates us k w = (n, w')"
  shows "(\<forall>p. p \<notin> set (map (path_join base_path \<circ> fst) us) \<longrightarrow> files w' p = files w p)
    \<and> (\<forall>p. files w' p = None \<longleftrightarrow> files w p = None)
    \<and> (\<exists>evs. trace w' = trace w @ evs \<and> list_all loop_event evs)
    \<and> (distinct (map (path_join base_path \<circ> fst) us) \<longrightarrow>
         n = k + length (filter (\<lambda>f. files w' (path_join base_path f) \<noteq> files w (path_join base_path f))
                   (map fst us)))"
  using assms
proof (induction us arbitrary: k w)
  case Nil
  then show ?case by simp
next
  case (Cons u us)
  obtain f d where u: "u = (f, d)" by (cases u)
  let ?p = "path_join base_path f"
  obtain b w1 where uf: "update_file f d (print_line (Checking f) w) = (b, w1)"
    by (cases "update_file f d (print_line (Checking f) w)")
  let ?w2 = "print_line (if b then Updated f else NoChanges f) w1"
  let ?k2 = "if b then k + 1 else k"
  from Cons.prems u uf have rec: "apply_updates us ?k2 ?w2 = (n, w')"
    by (cases b) simp_all
  note ih = Cons.IH [OF rec]
  note st = update_file_effect [OF uf]
  from st have f1: "\<And>p. p \<noteq> ?p \<Longrightarrow> files ?w2 p = files w p"
    and f2: "files ?w2 ?p \<noteq> files w ?p \<longleftrightarrow> b"
    and f3: "\<And>p. files ?w2 p = None \<longleftrightarrow> files w p = None"
    by simp_all
  from st obtain evs1 where t1: "trace w1 = trace w @ [Printed (Checking f)] @ evs1"
    and l1: "list_all loop_event evs1"
    by auto
  from ih obtain evs2 where t2: "trace w' = trace ?w2 @ evs2" and l2: "list_all loop_event evs2"
    by auto
  have frame: "\<forall>p. p \<notin> set (map (path_join base_path \<circ> fst) (u # us)) \<longrightarrow> files w' p = files w p"
    using ih f1 u by auto
  have exist: "\<forall>p. files w' p = None \<longleftrightarrow> files w p = None"
    using ih f3 by simp
  have tr: "\<exists>evs. trace w' = trace w @ evs \<and> list_all loop_event evs"
  proof (intro exI conjI)
    show "trace w' = trace w @ ([Printed (Checking f)] @ evs1
             @ [Printed (if b then Updated f else NoChanges f)] @ evs2)"
      using t1 t2 by simp
    show "list_all loop_event ([Printed (Checking f)] @ evs1
             @ [Printed (if b then Updated f else NoChanges f)] @ evs2)"
      using l1 l2 by simp
  qed
  have cnt: "n = k + length (filter (\<lambda>f. files w' (path_join base_path f) \<noteq> files w (path_join base_path f))
                   (map fst (u # us)))"
    if dist: "distinct (map (path_join base_path \<circ> fst) (u # us))"
  proof -
    from dist u have notin: "?p \<notin> set (map (path_join base_path \<circ> fst) us)"
      and dist': "distinct (map (path_join base_path \<circ> fst) us)"
      by simp_all
    from ih dist' have n: "n = ?k2 + length (filter (\<lambda>g. files w' (path_join base_path g) \<noteq> files ?w2 (path_join base_path g)) (map fst us))"
      by blast
    from ih notin have same: "files w' ?p = files ?w2 ?p"
      by blast
    let ?Q2 = "\<lambda>g. files w' (path_join base_path g) \<noteq> files ?w2 (path_join base_path g)"
    let ?Q = "\<lambda>g. files w' (path_join base_path g) \<noteq> files w (path_join base_path g)"
    define m where "m = length (filter ?Q (map fst us))"
    have "filter ?Q2 (map fst us) = filter ?Q (map fst us)"
    proof (rule filter_cong [OF refl])
      fix g assume "g \<in> set (map fst us)"
      then have "path_join base_path g \<in> set (map (path_join base_path \<circ> fst) us)"
        by auto
      with notin have "path_join base_path g \<noteq> ?p"
        by metis
      then show "?Q2 g = ?Q g"
        using f1 by simp
    qed
    with n have n': "n = ?k2 + m"
      by (simp only: m_def)
    from same f2 have "?Q f \<longleftrightarrow> b"
      by simp
    then have "length (filter ?Q (map fst (u # us))) = (if b then Suc m else m)"
      unfolding m_def u by simp
    with n' show ?thesis
      by (cases b) simp_all
  qed
  from frame exist tr cnt show ?case
    by blast
qed


lemma updates_names:
  "map fst updates =
     [''terraform-fmt.mdx'', ''terraform-version.mdx'', ''terraform-login.mdx'',
      ''terraform-logout.mdx'', ''terraform-console.mdx'', ''terraform-output.mdx'',
      ''terraform-show.mdx'', ''terraform-providers.mdx'', ''terraform-graph.mdx'',
      ''terraform-get.mdx'', ''terraform-force-unlock.mdx'', ''terraform-test.mdx'',
      ''terraform-metadata.mdx'', ''terraform-modules.mdx'', ''terraform-validate.mdx'',
      ''terraform-state.mdx'', ''terraform-taint.mdx'', ''terraform-untaint.mdx'',
      ''terraform-import.mdx'', ''terraform-refresh.mdx'', ''terraform-destroy.mdx'']"
  by (simp add: updates_def)

lemma path_join_relative:
  "\<not> prefix ''/'' f \<Longrightarrow> path_join base_path f = base_path @ ''/'' @ f"
  by (simp add: path_join_def base_path_def suffix_def)

lemma updates_paths:
  "map (path_join base_path \<circ> fst) updates = map (\<lambda>f. base_path @ ''/'' @ f) (map fst updates)"
proof -
  have "map (path_join base_path \<circ> fst) updates = map (path_join base_path) (map fst updates)"
    by simp
  also have "\<dots> = map (\<lambda>f. base_path @ ''/'' @ f) (map fst updates)"
    unfolding updates_names by (simp add: path_join_relative)
  finally show ?thesis .
qed

lemma updates_paths_distinct: "distinct (map (path_join base_path \<circ> fst) updates)"
proof -
  have d: "distinct (map fst updates)"
    unfolding updates_names by simp
  have i: "inj_on (\<lambda>f. base_path @ ''/'' @ f) A" for A
    by (rule inj_onI) simp
  show ?thesis
    unfolding updates_paths by (subst distinct_map) (intro conjI d i)
qed

lemma analysis_file_not_updated: "analysis_file \<notin> set (map (path_join base_path \<circ> fst) updates)"
proof -
  have "analysis_file \<noteq> base_path @ ''/'' @ f" for f
    by (simp add: analysis_file_def base_path_def)
  then show ?thesis
    unfolding updates_paths by auto
qed


lemma loop_event_quiet:
  "loop_event e \<Longrightarrow> \<not> is_removal e \<and> reported_count e = None \<and> e \<noteq> Printed RemovedAnalysis"
  by (induction e rule: loop_event.induct) simp_all

lemma loop_events_quiet:
  assumes "list_all loop_event evs"
  shows "filter is_removal evs = []" and "List.map_filter reported_count evs = []"
    and "Printed RemovedAnalysis \<notin> set evs"
  using assms
  by (induction evs) (auto dest: loop_event_quiet)

lemma map_filter_app:
  "List.map_filter f (xs @ ys) = List.map_filter f xs @ List.map_filter f ys"
  by (simp add: List.map_filter_def)

lemma target_not_analysis_file:
  assumes "f \<in> set (map fst updates)"
  shows "path_join base_path f \<noteq> analysis_file"
proof
  assume "path_join base_path f = analysis_file"
  with assms have "analysis_file \<in> set (map (path_join base_path \<circ> fst) updates)"
    by force
  with analysis_file_not_updated show False by contradiction
qed

lemma docs_run:
  "\<exists>n w1 evs.
     update_terraform_docs w0 =
       (if files w0 analysis_file \<noteq> None
        then print_line RemovedAnalysis (remove_file analysis_file (print_line (UpdatedFiles n) w1))
        else print_line (UpdatedFiles n) w1)
     \<and> trace w1 = trace w0 @ Printed Updating # evs
     \<and> list_all loop_event evs
     \<and> (\<forall>p. files w1 p = None \<longleftrightarrow> files w0 p = None)
     \<and> n = length (filter (\<lambda>f. files w1 (path_join base_path f) \<noteq> files w0 (path_join base_path f))
                  (map fst updates))"
proof -
  obtain n w1 where run: "apply_updates updates 0 (print_line Updating w0) = (n, w1)"
    by (cases "apply_updates updates 0 (print_line Updating w0)")
  note eff = apply_updates_effect [OF run]
  from eff obtain evs where tr: "trace w1 = trace (print_line Updating w0) @ evs"
    and quiet: "list_all loop_event evs"
    by blast
  from eff have ex: "files w1 p = None \<longleftrightarrow> files w0 p = None" for p
    by simp
  from eff updates_paths_distinct
  have cnt: "n = length (filter (\<lambda>f. files w1 (path_join base_path f) \<noteq> files w0 (path_join base_path f))
                  (map fst updates))"
    by simp
  have "update_terraform_docs w0 =
       (if files w0 analysis_file \<noteq> None
        then print_line RemovedAnalysis (remove_file analysis_file (print_line (UpdatedFiles n) w1))
        else print_line (UpdatedFiles n) w1)"
    using ex [of analysis_file] by (auto simp: update_terraform_docs_def run Let_def)
  moreover have "trace w1 = trace w0 @ Printed Updating # evs"
    using tr by simp
  ultimately show ?thesis
    using quiet ex cnt by blast
qed


lemma split_nl_last: "dropWhile (\<lambda>c. c \<noteq> nl) s = [] \<Longrightarrow> split_nl s = [s]"
  by (subst split_nl.simps) (simp only: list.case)

lemma split_nl_more:
  "dropWhile (\<lambda>c. c \<noteq> nl) s = x # rest \<Longrightarrow>
   split_nl s = takeWhile (\<lambda>c. c \<noteq> nl) s # split_nl rest"
  by (subst split_nl.simps) (simp only: list.case)

lemma split_nl_no_nl: "nl \<notin> set s \<Longrightarrow> split_nl s = [s]"
  by (rule split_nl_last) (auto simp: dropWhile_eq_Nil_conv)

lemma split_nl_Cons_nl: "split_nl (nl # s) = [] # split_nl s"
  using split_nl_more [of "nl # s" nl s] by simp

lemma split_nl_Cons_other:
  assumes "c \<noteq> nl"
  shows "split_nl (c # s) = (c # hd (split_nl s)) # tl (split_nl s)"
proof (cases "dropWhile (\<lambda>c. c \<noteq> nl) s")
  case Nil
  with assms have "dropWhile (\<lambda>c. c \<noteq> nl) (c # s) = []"
    by simp
  then have "split_nl (c # s) = [c # s]"
    by (rule split_nl_last)
  moreover from Nil have "split_nl s = [s]"
    by (rule split_nl_last)
  ultimately show ?thesis by simp
next
  case (Cons x rest)
  with assms have "dropWhile (\<lambda>c. c \<noteq> nl) (c # s) = x # rest"
    by simp
  then have "split_nl (c # s) = takeWhile (\<lambda>c. c \<noteq> nl) (c # s) # split_nl rest"
    by (rule split_nl_more)
  moreover from Cons have "split_nl s = takeWhile (\<lambda>c. c \<noteq> nl) s # split_nl rest"
    by (rule split_nl_more)
  ultimately show ?thesis using assms by simp
qed

lemma split_nl_app: "split_nl (a @ nl # b) = split_nl a @ split_nl b"
proof (induction a)
  case Nil
  show ?case
    by (simp add: split_nl_Cons_nl split_nl_no_nl)
next
  case (Cons c a)
  show ?case
  proof (cases "c = nl")
    case True
    with Cons show ?thesis by (simp add: split_nl_Cons_nl)
  next
    case False
    with Cons split_nl_not_Nil [of a] show ?thesis
      by (cases "split_nl a") (simp_all add: split_nl_Cons_other)
  qed
qed

lemma split_join: "ls \<noteq> [] \<Longrightarrow> split_nl (join_nl ls) = concat (map split_nl ls)"
proof (induction ls rule: join_nl.induct)
  case 1
  then show ?case by simp
next
  case (2 l)
  show ?case by simp
next
  case (3 l l' ls)
  then show ?case by (simp add: split_nl_app)
qed

lemma split_nl_lines: "l \<in> set (split_nl s) \<Longrightarrow> nl \<notin> set l"
proof (induction s arbitrary: l rule: length_induct)
  case (1 s)
  show ?case
  proof (cases "dropWhile (\<lambda>c. c \<noteq> nl) s")
    case Nil
    then have "split_nl s = [s]" by (rule split_nl_last)
    with "1.prems" Nil show ?thesis
      by (auto simp: dropWhile_eq_Nil_conv)
  next
    case (Cons x rest)
    have "length (dropWhile (\<lambda>c. c \<noteq> nl) s) \<le> length s"
      by (rule length_dropWhile_le)
    with Cons have less: "length rest < length s" by simp
    from Cons have sp: "split_nl s = takeWhile (\<lambda>c. c \<noteq> nl) s # split_nl rest"
      by (rule split_nl_more)
    from "1.prems" sp consider "l = takeWhile (\<lambda>c. c \<noteq> nl) s" | "l \<in> set (split_nl rest)"
      by auto
    then show ?thesis
    proof cases
      case 1
      then show ?thesis by (auto dest: set_takeWhileD)
    next
      case 2
      with "1.IH" less show ?thesis by blast
    qed
  qed
qed


section \<open>Running a script a second time\<close>




section \<open>A section with a subsection\<close>

text \<open>
  Claim C7 says that the CI/CD Integration section is removed, and the comment in the
  source says \<^verbatim>\<open>Remove CI/CD Integration section entirely\<close>. The lookahead
  \<^verbatim>\<open>(?=## |$)\<close> that ends the match also succeeds at the second \<^verbatim>\<open>#\<close> of a subsection
  heading \<^verbatim>\<open>### \<close>, so the match ends there: the script removes the section only up to
  its first subsection, and what is left of that heading reads as a section heading.
  On the page below the claim's steps leave \<^verbatim>\<open>## Next\<close> alone; the script leaves the
  subsection.
\<close>

theorem ci_cd_subsection_left_behind:
  "clean_content ''## CI/CD Integration\<newline>foo\<newline>### Sub\<newline>bar\<newline>## Next\<newline>''
     = ''## Sub\<newline>bar\<newline>## Next\<newline>''"
  by code_simp

section \<open>A missing file\<close>

text \<open>
  Claim C2, as the code has it. \<^verbatim>\<open>update_file\<close> checks \<^verbatim>\<open>os.path.exists\<close> first: for a
  path that is absent it prints the warning, returns \<^verbatim>\<open>False\<close> and touches nothing.
  \<^verbatim>\<open>clean_planfiles_doc.py\<close> has no such check: when its page is absent,
  \<^verbatim>\<open>open(file_path, 'r')\<close> raises \<^verbatim>\<open>FileNotFoundError\<close>, which nothing handles, and
  nothing is written or printed.
\<close>

theorem missing_file_skipped_or_raised:
  "(files w (path_join base_path filename) = None \<longrightarrow>
      update_file filename updates_dict w = (False, print_line (FileNotFound filename) w))
   \<and> (files w file_path = None \<longrightarrow>
      clean_planfiles_doc w = Inl (FileNotFoundError file_path))"
  by (simp add: update_file_absent clean_planfiles_doc_def)

theorem missing_file_skipped_or_raised_witness:
  "update_file ''terraform-fmt.mdx'' Map.empty \<lparr>files = Map.empty, trace = []\<rparr> =
     (False, \<lparr>files = Map.empty, trace = [Printed (FileNotFound ''terraform-fmt.mdx'')]\<rparr>)
   \<and> clean_planfiles_doc \<lparr>files = Map.empty, trace = []\<rparr> = Inl (FileNotFoundError file_path)"
  using missing_file_skipped_or_raised
    [of "\<lparr>files = Map.empty, trace = []\<rparr>" "''terraform-fmt.mdx''" Map.empty]
  by (simp add: print_line_def)

text \<open>
  The claim as stated fails for \<^verbatim>\<open>clean_planfiles_doc.py\<close>: on a file system without
  the page the script ends with the unhandled \<^verbatim>\<open>FileNotFoundError\<close>.
\<close>

theorem clean_missing_page_raises:
  "clean_planfiles_doc \<lparr>files = Map.empty, trace = []\<rparr> = Inl (FileNotFoundError file_path)"
  by (simp add: clean_planfiles_doc_def)

section \<open>Writing back\<close>

text \<open>
  Claim C3, as the code has it. \<^verbatim>\<open>update_file\<close> writes the transformed text exactly when
  it differs from the text read. \<^verbatim>\<open>clean_planfiles_doc.py\<close> does not compare: it writes
  the transformed text back in every run, changed or not.
\<close>

theorem write_back_policy:
  "(files w (path_join base_path filename) = Some c \<longrightarrow>
      filter is_write (new_events w (snd (update_file filename updates_dict w))) =
        (if update_content updates_dict c \<noteq> c
         then [Wrote (path_join base_path filename) (update_content updates_dict c)]
         else []))
   \<and> (files w file_path = Some c \<longrightarrow>
      map_sum id (\<lambda>w'. filter is_write (new_events w w')) (clean_planfiles_doc w) =
        Inr [Wrote file_path (clean_content c)])"
  by (simp add: update_file_present clean_planfiles_doc_def new_events_def write_file_def
      clean_summary_def)

theorem write_back_policy_witness:
  "filter is_write
     (new_events \<lparr>files = [path_join base_path ''terraform-fmt.mdx'' \<mapsto> ''Format''], trace = []\<rparr>
       (snd (update_file ''terraform-fmt.mdx'' Map.empty
          \<lparr>files = [path_join base_path ''terraform-fmt.mdx'' \<mapsto> ''Format''], trace = []\<rparr>))) = []
   \<and> map_sum id (\<lambda>w'. filter is_write (new_events \<lparr>files = [file_path \<mapsto> ''# Planfiles''], trace = []\<rparr> w'))
        (clean_planfiles_doc \<lparr>files = [file_path \<mapsto> ''# Planfiles''], trace = []\<rparr>) =
       Inr [Wrote file_path (clean_content ''# Planfiles'')]"
  using write_back_policy
    [of "\<lparr>files = [path_join base_path ''terraform-fmt.mdx'' \<mapsto> ''Format''], trace = []\<rparr>"
        "''terraform-fmt.mdx''" "''Format''" Map.empty]
    write_back_policy
    [of "\<lparr>files = [file_path \<mapsto> ''# Planfiles''], trace = []\<rparr>" _ "''# Planfiles''"]
  by (simp add: update_content_def truthy_def)

text \<open>
  The claim as stated fails for \<^verbatim>\<open>clean_planfiles_doc.py\<close>: on a page that the
  transformation leaves as it is, the script still writes the file.
\<close>

theorem clean_rewrites_unchanged_page:
  "clean_content ''# Planfiles'' = ''# Planfiles''
   \<and> clean_planfiles_doc \<lparr>files = [file_path \<mapsto> ''# Planfiles''], trace = []\<rparr> =
       Inr \<lparr>files = [file_path \<mapsto> ''# Planfiles''],
            trace = Wrote file_path ''# Planfiles'' # map Printed clean_summary\<rparr>"
proof -
  have "\<not> clean_patterns_match ''# Planfiles''"
    by code_simp
  then have "clean_content ''# Planfiles'' = ''# Planfiles''"
    by (rule clean_content_no_match)
  then show ?thesis
    by (simp add: clean_planfiles_doc_def write_file_def print_line_def clean_summary_def)
qed

section \<open>No pattern matches\<close>

text \<open>
  Claim C5. When none of the six regular expressions of \<^verbatim>\<open>clean_planfiles_doc.py\<close>
  matches anywhere in the text, the transformation returns the text as it is, and the
  script ends normally with the page holding the same text.
\<close>

theorem clean_silent_no_op:
  assumes "\<not> clean_patterns_match content"
  shows "clean_content content = content
    \<and> clean_planfiles_doc (w\<lparr>files := (files w)(file_path \<mapsto> content)\<rparr>) =
        Inr (fold print_line clean_summary
              (write_file file_path content (w\<lparr>files := (files w)(file_path \<mapsto> content)\<rparr>)))"
  using clean_content_no_match [OF assms] by (simp add: clean_planfiles_doc_def)

theorem clean_silent_no_op_witness:
  "\<not> clean_patterns_match ''# Planfiles\<newline>\<newline>A page.\<newline>''
   \<and> clean_content ''# Planfiles\<newline>\<newline>A page.\<newline>'' = ''# Planfiles\<newline>\<newline>A page.\<newline>''"
proof -
  have h: "\<not> clean_patterns_match ''# Planfiles\<newline>\<newline>A page.\<newline>''"
    by code_simp
  from clean_silent_no_op [OF h] h show ?thesis
    by simp
qed

section \<open>The info box goes in once\<close>

text \<open>
  Claim C8. \<^verbatim>\<open>update_file\<close> puts the stripped info box into the text at most once: after
  the first empty line whose predecessor starts with \<^verbatim>\<open>This command\<close>
  (\<open>insertion_point\<close>), however many such lines there are; when there is none, the
  text stays as it is.
\<close>

theorem info_box_inserted_once:
  "add_info_box info_box content =
     (case insertion_point (split_nl content) of
        None \<Rightarrow> content
      | Some i \<Rightarrow>
          join_nl (take (Suc i) (split_nl content) @ [py_strip info_box]
                     @ drop (Suc i) (split_nl content)))"
  by (rule add_info_box_point)

theorem info_box_inserted_once_witness:
  "add_info_box ''\<newline>\<newline>:::info\<newline>:::''
     ''This command a\<newline>\<newline>This command b\<newline>\<newline>end'' =
     ''This command a\<newline>\<newline>:::info\<newline>:::\<newline>This command b\<newline>\<newline>end''
   \<and> add_info_box ''\<newline>\<newline>:::info\<newline>:::'' ''This command a\<newline>This command b'' =
     ''This command a\<newline>This command b''"
proof -
  have "split_nl ''This command a\<newline>\<newline>This command b\<newline>\<newline>end'' =
          [''This command a'', '''', ''This command b'', '''', ''end'']"
    by code_simp
  moreover have "split_nl ''This command a\<newline>This command b'' = [''This command a'', ''This command b'']"
    by code_simp
  moreover have "py_strip ''\<newline>\<newline>:::info\<newline>:::'' = '':::info\<newline>:::''"
    by code_simp
  ultimately show ?thesis
    using info_box_inserted_once [of "''\<newline>\<newline>:::info\<newline>:::''"
        "''This command a\<newline>\<newline>This command b\<newline>\<newline>end''"]
      info_box_inserted_once [of "''\<newline>\<newline>:::info\<newline>:::''" "''This command a\<newline>This command b''"]
    by (simp add: insertion_point_def startswith_def upt_rec)
qed

section \<open>The first replacement does nothing\<close>

text \<open>
  Claim C9. The first \<^verbatim>\<open>replace\<close> of the purpose-addon branch replaces its text by the
  same text, so it returns every content as it is, and \<^verbatim>\<open>update_file\<close> equals the
  function without it, whose purpose-addon branch is the second \<^verbatim>\<open>replace\<close> alone.
\<close>

theorem first_replacement_is_identity:
  "py_replace '':::note purpose\<newline>Use this command'' '':::note purpose\<newline>Use this command'' content
     = content
   \<and> update_file filename updates_dict w = update_file_simplified filename updates_dict w"
proof -
  have "update_content updates_dict c = update_content_simplified updates_dict c" for c
    by (simp add: update_content_def update_content_simplified_def py_replace_same)
  then show ?thesis
    by (simp add: py_replace_same update_file_def update_file_simplified_def Let_def
        split: option.splits)
qed

section \<open>Runs of line feeds in what is written\<close>

text \<open>
  Claim C4, as the code has it. The last step of \<^verbatim>\<open>clean_planfiles_doc.py\<close> replaces every
  run of three or more line feeds by two, so the text it writes never contains three
  line feeds in a row. \<^verbatim>\<open>update_terraform_docs.py\<close> has no such step.
\<close>

theorem clean_writes_no_blank_run:
  "\<not> sublist [nl, nl, nl] (clean_content content)
   \<and> map_sum id
        (\<lambda>w'. filter is_write (new_events (w\<lparr>files := (files w)(file_path \<mapsto> content)\<rparr>) w'))
        (clean_planfiles_doc (w\<lparr>files := (files w)(file_path \<mapsto> content)\<rparr>)) =
       Inr [Wrote file_path (clean_content content)]"
proof -
  have "\<exists>s. clean_content content = collapse_blank_lines s"
    unfolding clean_content_def Let_def re_sub_blank_lines collapse_blank_lines_def by blast
  then have "\<not> sublist [nl, nl, nl] (clean_content content)"
    using collapse_runs by auto
  then show ?thesis
    by (simp add: clean_planfiles_doc_def new_events_def write_file_def clean_summary_def)
qed

text \<open>
  The claim as stated fails for \<^verbatim>\<open>update_terraform_docs.py\<close>: a page with a run of four
  line feeds gets its info box, is written, and still has three line feeds in a row.
\<close>

theorem update_writes_blank_run:
  "update_file ''terraform-login.mdx'' (updates_for ''terraform-login.mdx'')
     \<lparr>files = [path_join base_path ''terraform-login.mdx'' \<mapsto>
                 ''This command logs in.\<newline>\<newline>\<newline>\<newline>Usage''],
      trace = []\<rparr> =
     (True,
      write_file (path_join base_path ''terraform-login.mdx'')
        (update_content (updates_for ''terraform-login.mdx'')
           ''This command logs in.\<newline>\<newline>\<newline>\<newline>Usage'')
        \<lparr>files = [path_join base_path ''terraform-login.mdx'' \<mapsto>
                    ''This command logs in.\<newline>\<newline>\<newline>\<newline>Usage''],
         trace = []\<rparr>)
   \<and> sublist [nl, nl, nl]
        (update_content (updates_for ''terraform-login.mdx'')
           ''This command logs in.\<newline>\<newline>\<newline>\<newline>Usage'')"
proof -
  let ?c = "''This command logs in.\<newline>\<newline>\<newline>\<newline>Usage''"
  have changed: "update_content (updates_for ''terraform-login.mdx'') ?c \<noteq> ?c"
    by code_simp
  have run: "sublist [nl, nl, nl] (update_content (updates_for ''terraform-login.mdx'') ?c)"
    by code_simp
  from changed run show ?thesis
    by (simp add: update_file_present)
qed

section \<open>The analysis file\<close>

text \<open>
  Claim C6. A run of \<^verbatim>\<open>update_terraform_docs.py\<close> removes the analysis file exactly
  when it is there at the start: then its only removal is that of the analysis file, and
  it prints the message; when the file is absent the run removes nothing and prints no
  such message. Either way the run ends normally and the file is absent afterwards.
\<close>

theorem analysis_file_removed_iff_present:
  "filter is_removal (new_events w (update_terraform_docs w)) =
     (if files w analysis_file \<noteq> None then [Removed analysis_file] else [])
   \<and> (Printed RemovedAnalysis \<in> set (new_events w (update_terraform_docs w))
        \<longleftrightarrow> files w analysis_file \<noteq> None)
   \<and> files (update_terraform_docs w) analysis_file = None"
proof -
  obtain n w1 evs where run: "update_terraform_docs w =
       (if files w analysis_file \<noteq> None
        then print_line RemovedAnalysis (remove_file analysis_file (print_line (UpdatedFiles n) w1))
        else print_line (UpdatedFiles n) w1)"
    and tr: "trace w1 = trace w @ Printed Updating # evs"
    and quiet: "list_all loop_event evs"
    and ex: "\<And>p. files w1 p = None \<longleftrightarrow> files w p = None"
    using docs_run [of w] by blast
  note q = loop_events_quiet [OF quiet]
  show ?thesis
  proof (cases "files w analysis_file")
    case None
    with run have "update_terraform_docs w = print_line (UpdatedFiles n) w1"
      by simp
    then show ?thesis
      using None tr q ex by (simp add: new_events_def)
  next
    case (Some c)
    with run have "update_terraform_docs w =
        print_line RemovedAnalysis (remove_file analysis_file (print_line (UpdatedFiles n) w1))"
      by simp
    then show ?thesis
      using Some tr q by (simp add: new_events_def remove_file_def)
  qed
qed


section \<open>What \<^verbatim>\<open>update_file\<close> returns, and the count\<close>

text \<open>
  Claim C10. For an existing target file, \<^verbatim>\<open>update_file\<close> returns \<^verbatim>\<open>True\<close> exactly when the
  transformed text differs from the text of the file, and when it returns \<^verbatim>\<open>False\<close>
  nothing has changed: no write, no print. The count that the script reports at the end is
  the number of files of \<^verbatim>\<open>updates\<close> whose text after the run differs from their text
  before it.
\<close>

theorem update_file_reports_change:
  "(files w (path_join base_path filename) = Some c \<longrightarrow>
      (fst (update_file filename updates_dict w) \<longleftrightarrow> update_content updates_dict c \<noteq> c)
      \<and> (\<not> fst (update_file filename updates_dict w) \<longrightarrow>
           snd (update_file filename updates_dict w) = w))
   \<and> List.map_filter reported_count (new_events w (update_terraform_docs w)) =
       [length (modified_files w (update_terraform_docs w))]"
proof -
  obtain n w1 evs where run: "update_terraform_docs w =
       (if files w analysis_file \<noteq> None
        then print_line RemovedAnalysis (remove_file analysis_file (print_line (UpdatedFiles n) w1))
        else print_line (UpdatedFiles n) w1)"
    and tr: "trace w1 = trace w @ Printed Updating # evs"
    and quiet: "list_all loop_event evs"
    and cnt: "n = length (filter (\<lambda>f. files w1 (path_join base_path f) \<noteq> files w (path_join base_path f))
                  (map fst updates))"
    using docs_run [of w] by blast
  note q = loop_events_quiet [OF quiet]
  have same: "files (update_terraform_docs w) (path_join base_path f) = files w1 (path_join base_path f)"
    if "f \<in> set (map fst updates)" for f
    using target_not_analysis_file [OF that] by (simp add: run remove_file_def)
  have "modified_files w (update_terraform_docs w) =
      filter (\<lambda>f. files w1 (path_join base_path f) \<noteq> files w (path_join base_path f)) (map fst updates)"
    unfolding modified_files_def by (rule filter_cong [OF refl]) (simp add: same)
  with cnt have n: "n = length (modified_files w (update_terraform_docs w))"
    by simp
  have "List.map_filter reported_count (new_events w (update_terraform_docs w)) = [n]"
    using tr q by (simp add: run new_events_def remove_file_def map_filter_app)
  with n show ?thesis
    by (simp add: update_file_present)
qed


theorem update_file_reports_change_witness:
  "files \<lparr>files = [path_join base_path ''terraform-login.mdx'' \<mapsto> ''This command logs in.\<newline>\<newline>Usage''],
          trace = []\<rparr> (path_join base_path ''terraform-login.mdx'')
     = Some ''This command logs in.\<newline>\<newline>Usage''
   \<and> fst (update_file ''terraform-login.mdx'' (updates_for ''terraform-login.mdx'')
        \<lparr>files = [path_join base_path ''terraform-login.mdx'' \<mapsto> ''This command logs in.\<newline>\<newline>Usage''],
         trace = []\<rparr>)
   \<and> \<not> fst (update_file ''terraform-login.mdx'' Map.empty
        \<lparr>files = [path_join base_path ''terraform-login.mdx'' \<mapsto> ''This command logs in.\<newline>\<newline>Usage''],
         trace = []\<rparr>)
   \<and> snd (update_file ''terraform-login.mdx'' Map.empty
        \<lparr>files = [path_join base_path ''terraform-login.mdx'' \<mapsto> ''This command logs in.\<newline>\<newline>Usage''],
         trace = []\<rparr>)
     = \<lparr>files = [path_join base_path ''terraform-login.mdx'' \<mapsto> ''This command logs in.\<newline>\<newline>Usage''],
        trace = []\<rparr>"
proof -
  let ?c = "''This command logs in.\<newline>\<newline>Usage''"
  let ?w = "\<lparr>files = [path_join base_path ''terraform-login.mdx'' \<mapsto> ?c], trace = []\<rparr>"
  have h: "files ?w (path_join base_path ''terraform-login.mdx'') = Some ?c"
    by simp
  have changed: "update_content (updates_for ''terraform-login.mdx'') ?c \<noteq> ?c"
    by code_simp
  have same: "update_content Map.empty ?c = ?c"
    by (simp add: update_content_def truthy_def)
  from update_file_reports_change [of ?w "''terraform-login.mdx''" ?c "updates_for ''terraform-login.mdx''"]
    update_file_reports_change [of ?w "''terraform-login.mdx''" ?c Map.empty]
    h changed same
  show ?thesis
    by simp
qed

end
